theory Spec2Isabelle
  imports Complex_Main "HOL-Library.AList"
begin

section \<open>Wi-Fi heat map: calibration, scan aggregation, measurement store, grid\<close>

text \<open>
  A shallow embedding of the class \<^verbatim>\<open>WiFiHeatmapApp\<close> of \<^verbatim>\<open>Wifi-heatmap.py\<close>.
  Python's unbounded integers are \<^typ>\<open>int\<close>. Python floats are real numbers. In the
  calibration, the aggregation and the store they are computed with exactly, so rounding,
  overflow and underflow of IEEE doubles are outside the model there. The interpolation
  grid is computed as numpy does it, every product, quotient and sum rounded to the
  nearest double by \<open>fl\<close>, because the rounding decides which lattice points exist.
  A Python \<^verbatim>\<open>dict\<close> is an association list in insertion order: a store to a key that is
  present keeps the key's position, a store to a new key appends it
  (\<^const>\<open>AList.update\<close>). Widget-only effects (button labels, message boxes, the
  markers drawn on the scene) are left out of the state.
\<close>

subsection \<open>Data\<close>

text \<open>An entry of \<^verbatim>\<open>self.measurements\<close>: the tuple \<^verbatim>\<open>(x, y, ssid, signal_strength)\<close>.\<close>

type_synonym measurement = "int \<times> int \<times> string \<times> real"

text \<open>
  The value of a numpy \<^verbatim>\<open>float64\<close> division: numpy scalars do not raise on a zero
  divisor, they return an infinity or NaN.
\<close>

datatype np_float = Finite real | PosInf | NegInf | NaN

datatype error = ValueError | KeyError | NumpyError

record app_state =
  measurements :: "measurement list"
  interface :: bool
  enabled_scans :: bool
  calibration_points :: "(int \<times> int) list"
  pixels_per_meter :: "np_float option"
  measurement_radius :: real
  is_calibrating :: bool

text \<open>The attributes as \<^verbatim>\<open>__init__\<close> sets them (\<^verbatim>\<open>interface = None\<close> is \<open>False\<close>).\<close>

definition init_state :: app_state where
  "init_state =
     \<lparr>measurements = [], interface = False, enabled_scans = False,
      calibration_points = [], pixels_per_meter = None, measurement_radius = 5,
      is_calibrating = False\<rparr>"

subsection \<open>Calibration\<close>

definition start_calibration :: "app_state \<Rightarrow> app_state" where
  "start_calibration st = st\<lparr>is_calibrating := True, calibration_points := []\<rparr>"

definition np_divide :: "real \<Rightarrow> real \<Rightarrow> np_float" where
  "np_divide a b =
     (if b \<noteq> 0 then Finite (a / b)
      else if 0 < a then PosInf
      else if a < 0 then NegInf
      else NaN)"

text \<open>
  \<^verbatim>\<open>pixel_distance = np.sqrt((p2[0] - p1[0])**2 + (p2[1] - p1[1])**2)\<close>: the squares
  are exact Python integers, the root is a float.
\<close>

definition pixel_distance :: "int \<times> int \<Rightarrow> int \<times> int \<Rightarrow> real" where
  "pixel_distance p1 p2 =
     sqrt (real_of_int ((fst p2 - fst p1)\<^sup>2 + (snd p2 - snd p1)\<^sup>2))"

definition calculate_pixels_per_meter :: "app_state \<Rightarrow> real \<Rightarrow> app_state" where
  "calculate_pixels_per_meter st distance_meters =
     (case calibration_points st of
        [p1, p2] \<Rightarrow>
          st\<lparr>pixels_per_meter := Some (np_divide (pixel_distance p1 p2) distance_meters)\<rparr>
      | _ \<Rightarrow> st)"

text \<open>
  \<open>dialog\<close> is what \<^verbatim>\<open>QInputDialog.getDouble\<close> returns, \<^verbatim>\<open>(distance, ok)\<close>; it is
  consulted only when the click is the second one.
\<close>

definition handle_calibration_click ::
  "app_state \<Rightarrow> int \<Rightarrow> int \<Rightarrow> real \<times> bool \<Rightarrow> app_state" where
  "handle_calibration_click st x y dialog =
     (let st1 = st\<lparr>calibration_points := calibration_points st @ [(x, y)]\<rparr> in
      if length (calibration_points st1) = 1 then st1
      else if length (calibration_points st1) = 2 then
        (case dialog of
           (distance, ok) \<Rightarrow>
             if ok then
               (calculate_pixels_per_meter st1 distance)
                 \<lparr>is_calibrating := False, enabled_scans := True\<rparr>
             else st1)
      else st1)"

subsection \<open>Scan aggregation\<close>

type_synonym sigdict = "(string \<times> real list) list"

definition dict_get :: "('k \<times> 'v) list \<Rightarrow> 'k \<Rightarrow> 'v \<Rightarrow> 'v" where
  "dict_get d k dflt = (case map_of d k of None \<Rightarrow> dflt | Some v \<Rightarrow> v)"

text \<open>
  \<^verbatim>\<open>mergeDictionary\<close> builds and returns a new dictionary and changes neither argument.
  Python iterates the union of the key sets in an unspecified order; the model lists the
  keys of \<open>dict1\<close> first.
\<close>

definition mergeDictionary :: "sigdict \<Rightarrow> sigdict \<Rightarrow> sigdict" where
  "mergeDictionary dict1 dict2 =
     map (\<lambda>key. (key, dict_get dict1 key [] @ dict_get dict2 key []))
       (remdups (map fst dict1 @ map fst dict2))"

text \<open>\<^verbatim>\<open>signal_watts = math.pow(10, signal_strength / 10) / 1000\<close>\<close>

definition dbm_to_watts :: "real \<Rightarrow> real" where
  "dbm_to_watts signal_strength = 10 powr (signal_strength / 10) / 1000"

text \<open>Python's \<^verbatim>\<open>max\<close> raises \<^verbatim>\<open>ValueError\<close> on an empty list.\<close>

definition py_max :: "real list \<Rightarrow> error + real" where
  "py_max xs = (case xs of [] \<Rightarrow> Inl ValueError | x # rest \<Rightarrow> Inr (fold max rest x))"

text \<open>
  The body of the loop over \<^verbatim>\<open>access_points\<close>. The test of the second \<^verbatim>\<open>if\<close> reads
  \<^verbatim>\<open>ssid_signals\<close>, the dictionary across scans, and \<^verbatim>\<open>or\<close> evaluates \<^verbatim>\<open>max\<close> only when
  the key is there.
\<close>

definition scan_reading :: "sigdict \<Rightarrow> sigdict \<Rightarrow> string \<times> real \<Rightarrow> error + sigdict" where
  "scan_reading ssid_signals ssid_signals_scan reading =
     (case reading of
        (ssid, signal_strength) \<Rightarrow>
          let scan1 =
                (if ssid \<in> fst ` set ssid_signals_scan then ssid_signals_scan
                 else AList.update ssid [] ssid_signals_scan);
              signal_watts = dbm_to_watts signal_strength
          in if ssid \<notin> fst ` set ssid_signals then
               Inr (AList.update ssid [signal_watts] scan1)
             else
               (case map_of scan1 ssid of
                  None \<Rightarrow> Inl KeyError
                | Some ws \<Rightarrow>
                    (case py_max ws of
                       Inl e \<Rightarrow> Inl e
                     | Inr m \<Rightarrow>
                         if m < signal_watts then
                           Inr (AList.update ssid [signal_watts] scan1)
                         else Inr scan1)))"

fun scan_pass :: "sigdict \<Rightarrow> (string \<times> real) list \<Rightarrow> sigdict \<Rightarrow> error + sigdict" where
  "scan_pass ssid_signals [] ssid_signals_scan = Inr ssid_signals_scan"
| "scan_pass ssid_signals (r # rs) ssid_signals_scan =
     (case scan_reading ssid_signals ssid_signals_scan r of
        Inl e \<Rightarrow> Inl e
      | Inr scan' \<Rightarrow> scan_pass ssid_signals rs scan')"

text \<open>
  \<^verbatim>\<open>scan_access_points\<close>: the raw results of the interface, an empty SSID replaced by
  the literal \<^verbatim>\<open><Hidden SSID>\<close>.
\<close>

definition scan_access_points :: "(string \<times> real) list \<Rightarrow> (string \<times> real) list" where
  "scan_access_points results =
     map (\<lambda>(ssid, signal). (if ssid = [] then ''<Hidden SSID>'' else ssid, signal)) results"

text \<open>
  The loop \<^verbatim>\<open>for i in range(3)\<close>, on the pair \<^verbatim>\<open>(ssid_signals, ssid_signals_scan)\<close>;
  \<open>results i\<close> is what the interface's \<^verbatim>\<open>scan_results()\<close> returns in pass \<open>i\<close>. Each pass
  starts from an empty \<^verbatim>\<open>ssid_signals_scan\<close>. The value of
  \<^verbatim>\<open>self.mergeDictionary(ssid_signals, ssid_signals_scan)\<close> is not bound to anything, so
  \<^verbatim>\<open>ssid_signals\<close> goes on unchanged.
\<close>

fun scan_loop ::
  "(nat \<Rightarrow> (string \<times> real) list) \<Rightarrow> nat list \<Rightarrow> sigdict \<times> sigdict \<Rightarrow> error + sigdict \<times> sigdict"
where
  "scan_loop results [] s = Inr s"
| "scan_loop results (i # rest) s =
     (case scan_pass (fst s) (scan_access_points (results i)) [] of
        Inl e \<Rightarrow> Inl e
      | Inr ssid_signals_scan \<Rightarrow>
          (let unused = mergeDictionary (fst s) ssid_signals_scan
           in scan_loop results rest (fst s, ssid_signals_scan)))"

text \<open>\<^verbatim>\<open>math.log10\<close> raises \<^verbatim>\<open>ValueError\<close> outside the positive reals.\<close>

definition py_log10 :: "real \<Rightarrow> error + real" where
  "py_log10 x = (if 0 < x then Inr (log 10 x) else Inl ValueError)"

text \<open>\<^verbatim>\<open>10 * math.log10((sum(signals) / len(signals)) * 1000)\<close>\<close>

definition average_dbm :: "real list \<Rightarrow> error + real" where
  "average_dbm signals =
     (case py_log10 (sum_list signals / real (length signals) * 1000) of
        Inl e \<Rightarrow> Inl e
      | Inr l \<Rightarrow> Inr (10 * l))"

text \<open>The dictionary comprehension \<^verbatim>\<open>averaged_signals\<close>, entries with an empty list skipped.\<close>

fun averaged_signals :: "sigdict \<Rightarrow> error + (string \<times> real) list" where
  "averaged_signals [] = Inr []"
| "averaged_signals ((ssid, signals) # rest) =
     (if signals = [] then averaged_signals rest
      else
        (case average_dbm signals of
           Inl e \<Rightarrow> Inl e
         | Inr avg \<Rightarrow>
             (case averaged_signals rest of
                Inl e \<Rightarrow> Inl e
              | Inr avgs \<Rightarrow> Inr ((ssid, avg) # avgs))))"

text \<open>
  The three passes and the averaging: lines 206 to 230 of \<^verbatim>\<open>perform_scan\<close>. The
  comprehension reads \<^verbatim>\<open>ssid_signals_scan\<close>, which after the loop is the dictionary of
  the third pass.
\<close>

definition aggregate_scans ::
  "(nat \<Rightarrow> (string \<times> real) list) \<Rightarrow> error + (string \<times> real) list" where
  "aggregate_scans results =
     (case scan_loop results [0..<3] ([], []) of
        Inl e \<Rightarrow> Inl e
      | Inr s \<Rightarrow> averaged_signals (snd s))"

subsection \<open>Measurement store\<close>

definition key_of :: "measurement \<Rightarrow> int \<times> int \<times> string" where
  "key_of m = (case m of (x, y, ssid, strength) \<Rightarrow> (x, y, ssid))"

definition strength_of :: "measurement \<Rightarrow> real" where
  "strength_of m = (case m of (x, y, ssid, strength) \<Rightarrow> strength)"

text \<open>
  \<^verbatim>\<open>next((m for m in self.measurements if m[0] == x and m[1] == y and m[2] == ssid),
  None)\<close>: the first entry with the key.
\<close>

definition existing_measurement ::
  "measurement list \<Rightarrow> int \<Rightarrow> int \<Rightarrow> string \<Rightarrow> measurement option" where
  "existing_measurement ms x y ssid = find (\<lambda>m. key_of m = (x, y, ssid)) ms"

text \<open>
  The body of the loop over \<^verbatim>\<open>averaged_signals.items()\<close>: lines 235 to 241. A tuple
  of four is true in Python, so \<^verbatim>\<open>if existing_measurement\<close> tests for \<^verbatim>\<open>None\<close>;
  \<^verbatim>\<open>list.remove\<close> deletes the first equal entry.
\<close>

definition upsert ::
  "measurement list \<Rightarrow> int \<Rightarrow> int \<Rightarrow> string \<Rightarrow> real \<Rightarrow> measurement list" where
  "upsert ms x y ssid avg_signal_strength =
     (case existing_measurement ms x y ssid of
        Some existing \<Rightarrow>
          if strength_of existing < avg_signal_strength then
            remove1 existing ms @ [(x, y, ssid, avg_signal_strength)]
          else ms
      | None \<Rightarrow> ms @ [(x, y, ssid, avg_signal_strength)])"

definition update_measurements ::
  "measurement list \<Rightarrow> int \<Rightarrow> int \<Rightarrow> (string \<times> real) list \<Rightarrow> measurement list" where
  "update_measurements ms x y averaged =
     fold (\<lambda>(ssid, avg) acc. upsert acc x y ssid avg) averaged ms"

definition perform_scan ::
  "app_state \<Rightarrow> (nat \<Rightarrow> (string \<times> real) list) \<Rightarrow> int \<Rightarrow> int \<Rightarrow> error + app_state" where
  "perform_scan st results x y =
     (if \<not> interface st then Inr st
      else
        (case aggregate_scans results of
           Inl e \<Rightarrow> Inl e
         | Inr averaged \<Rightarrow>
             Inr (st\<lparr>measurements := update_measurements (measurements st) x y averaged,
                     enabled_scans := True\<rparr>)))"

text \<open>The stored value for a key, as the store's own lookup finds it.\<close>

definition stored :: "measurement list \<Rightarrow> int \<Rightarrow> int \<Rightarrow> string \<Rightarrow> real option" where
  "stored ms x y ssid = map_option strength_of (existing_measurement ms x y ssid)"

subsection \<open>Samples of one network\<close>

text \<open>The loop of \<^verbatim>\<open>generate_heatmap\<close> that fills \<^verbatim>\<open>filtered_measurements\<close>.\<close>

definition filter_step ::
  "string \<Rightarrow> measurement \<Rightarrow> ((int \<times> int) \<times> real) list \<Rightarrow> ((int \<times> int) \<times> real) list" where
  "filter_step ssid m fm =
     (case m of
        (x, y, s, strength) \<Rightarrow>
          if s = ssid then
            (case map_of fm (x, y) of
               None \<Rightarrow> AList.update (x, y) strength fm
             | Some old \<Rightarrow> if old < strength then AList.update (x, y) strength fm else fm)
          else fm)"

definition filtered_measurements ::
  "measurement list \<Rightarrow> string \<Rightarrow> ((int \<times> int) \<times> real) list" where
  "filtered_measurements ms ssid = fold (filter_step ssid) ms []"

text \<open>The strengths stored for a network at a location.\<close>

definition strengths_at :: "measurement list \<Rightarrow> int \<Rightarrow> int \<Rightarrow> string \<Rightarrow> real set" where
  "strengths_at ms x y ssid = {v. (x, y, ssid, v) \<in> set ms}"

subsection \<open>Doubles\<close>

text \<open>
  Rounding to the nearest integer, a tie going to the even one.
\<close>

definition round_half_even :: "real \<Rightarrow> int" where
  "round_half_even x =
     (let f = \<lfloor>x\<rfloor>; r = x - of_int f
      in if r < 1 / 2 then f
         else if 1 / 2 < r then f + 1
         else if even f then f else f + 1)"

text \<open>
  The double nearest to a real number, ties to even: a significand of 53 bits at the
  binary exponent of the number. The exponent is not bounded, so overflow to an infinity
  and the subnormal numbers are outside the model.
\<close>

definition fl :: "real \<Rightarrow> real" where
  "fl x =
     (if x = 0 then 0
      else let u = 2 powr (of_int \<lfloor>log 2 \<bar>x\<bar>\<rfloor> - 52)
           in of_int (round_half_even (x / u)) * u)"

subsection \<open>Interpolation grid and field\<close>

text \<open>
  \<^verbatim>\<open>np.arange(start, stop, step)\<close> as numpy computes it on doubles. The length is
  the ceiling of the rounded quotient \<open>(stop - start) / step\<close>, nothing when that is not
  positive; no length can be computed for a zero step. The first element is \<open>start\<close>, the
  second \<open>next = start + step\<close>, and element \<open>i\<close> from the third on is
  \<open>start + i * delta\<close> with \<open>delta = next - start\<close>. In the program \<open>start\<close> and \<open>stop\<close> are
  Python integers, whose difference is exact.
\<close>

definition np_arange :: "real \<Rightarrow> real \<Rightarrow> real \<Rightarrow> error + real list" where
  "np_arange start stop step =
     (if step = 0 then Inl NumpyError
      else
        let len = nat \<lceil>fl ((stop - start) / step)\<rceil>;
            next = fl (start + step);
            delta = fl (next - start)
        in Inr (map (\<lambda>i. if i = 0 then start
                         else if i = 1 then next
                         else fl (start + fl (real i * delta)))
                  [0..<len]))"

text \<open>
  \<^verbatim>\<open>np.meshgrid(x_grid, y_grid)\<close>: two arrays of \<open>len(y_grid)\<close> rows and \<open>len(x_grid)\<close>
  columns, \<open>X[i][j] = x_grid[j]\<close> and \<open>Y[i][j] = y_grid[i]\<close>.
\<close>

definition np_meshgrid :: "real list \<Rightarrow> real list \<Rightarrow> real list list \<times> real list list" where
  "np_meshgrid x_grid y_grid =
     (replicate (length y_grid) x_grid, map (\<lambda>y. replicate (length x_grid) y) y_grid)"

text \<open>
  \<^verbatim>\<open>grid_step = self.measurement_radius * self.pixels_per_meter\<close>, a product of doubles.
  \<open>radius\<close> and \<open>ppm\<close> are the values of the two attributes, \<open>ppm\<close> a finite scale: a
  calibration through the dialog, whose distance is 0.1 at least, gives no other.
\<close>

definition grid_step :: "real \<Rightarrow> real \<Rightarrow> real" where
  "grid_step radius ppm = fl (radius * ppm)"

definition interpolation_grid ::
  "real \<Rightarrow> real \<Rightarrow> int \<Rightarrow> int \<Rightarrow> error + real list list \<times> real list list" where
  "interpolation_grid radius ppm width height =
     (case np_arange 0 (real_of_int width) (grid_step radius ppm) of
        Inl e \<Rightarrow> Inl e
      | Inr x_grid \<Rightarrow>
          (case np_arange 0 (real_of_int height) (grid_step radius ppm) of
             Inl e \<Rightarrow> Inl e
           | Inr y_grid \<Rightarrow> Inr (np_meshgrid x_grid y_grid)))"

text \<open>
  The field of \<^verbatim>\<open>plot_heatmap\<close>, lines 297 to 309. \<open>Rbf\<close> stands for
  \<^verbatim>\<open>scipy.interpolate.Rbf\<close> with the Gaussian kernel: from the sample coordinates, the
  strengths and \<open>epsilon\<close>, the same product as the grid step, it gives the interpolant, or
  fails.
\<close>

definition heatmap_field ::
  "(real list \<Rightarrow> real list \<Rightarrow> real list \<Rightarrow> real \<Rightarrow> error + (real \<Rightarrow> real \<Rightarrow> real)) \<Rightarrow>
   real \<Rightarrow> real \<Rightarrow> int \<Rightarrow> int \<Rightarrow> real list \<Rightarrow> real list \<Rightarrow> real list \<Rightarrow>
   error + real list list" where
  "heatmap_field Rbf radius ppm width height x_coords y_coords strengths =
     (case interpolation_grid radius ppm width height of
        Inl e \<Rightarrow> Inl e
      | Inr (X, Y) \<Rightarrow>
          (case Rbf x_coords y_coords strengths (grid_step radius ppm) of
             Inl e \<Rightarrow> Inl e
           | Inr rbf \<Rightarrow>
               (let Z = map2 (map2 rbf) X Y
                in Inr (map (map uminus) Z))))"

section \<open>The measurement store\<close>

lemma key_of_new [simp]: "key_of (x, y, ssid, v) = (x, y, ssid)"
  by (simp add: key_of_def)

lemma strength_of_new [simp]: "strength_of (x, y, ssid, v) = v"
  by (simp add: strength_of_def)

lemma existing_measurement_None:
  "existing_measurement ms x y ssid = None \<longleftrightarrow> (x, y, ssid) \<notin> key_of ` set ms"
  unfolding existing_measurement_def find_None_iff by force

lemma existing_measurement_Some:
  "existing_measurement ms x y ssid = Some m \<Longrightarrow> m \<in> set ms \<and> key_of m = (x, y, ssid)"
  unfolding existing_measurement_def find_Some_iff by auto

lemma existing_measurement_unique:
  "distinct (map key_of ms) \<Longrightarrow> m \<in> set ms \<Longrightarrow> key_of m = (x, y, ssid) \<Longrightarrow>
   existing_measurement ms x y ssid = Some m"
  unfolding existing_measurement_def
  by (induction ms) (auto simp: rev_image_eqI)

lemma filter_remove1_other: "\<not> P m \<Longrightarrow> filter P (remove1 m ms) = filter P ms"
  by (induction ms) auto

lemma upsert_other_keys:
  "filter (\<lambda>m. key_of m \<noteq> (x, y, ssid)) (upsert ms x y ssid v) =
   filter (\<lambda>m. key_of m \<noteq> (x, y, ssid)) ms"
  by (auto simp: upsert_def filter_remove1_other split: option.splits
      dest!: existing_measurement_Some)

lemma upsert_rejected:
  "stored ms x y ssid = Some old \<Longrightarrow> v \<le> old \<Longrightarrow> upsert ms x y ssid v = ms"
  by (auto simp: upsert_def stored_def split: option.splits)

lemma keys_remove1_append:
  assumes "m \<in> set ms" "key_of m = k" "key_of m' = k"
  shows "key_of ` set (remove1 m ms @ [m']) = key_of ` set ms"
proof -
  have "set ms = insert m (set (remove1 m ms))"
    using assms(1) by (induction ms) auto
  then have "key_of ` set ms = insert k (key_of ` set (remove1 m ms))"
    using assms(2) by auto
  then show ?thesis using assms(3) by auto
qed

lemma keys_upsert:
  "key_of ` set (upsert ms x y ssid v) = insert (x, y, ssid) (key_of ` set ms)"
proof (cases "existing_measurement ms x y ssid")
  case None
  then show ?thesis by (simp add: upsert_def)
next
  case (Some m)
  then have m: "m \<in> set ms" "key_of m = (x, y, ssid)"
    using existing_measurement_Some by blast+
  then have "insert (x, y, ssid) (key_of ` set ms) = key_of ` set ms" by force
  then show ?thesis
    using Some keys_remove1_append [OF m, of "(x, y, ssid, v)"] by (simp add: upsert_def)
qed

lemma distinct_keys_remove1:
  "distinct (map key_of ms) \<Longrightarrow> m \<in> set ms \<Longrightarrow>
   distinct (map key_of (remove1 m ms)) \<and> key_of m \<notin> key_of ` set (remove1 m ms)"
proof (induction ms)
  case Nil
  then show ?case by simp
next
  case (Cons a ms)
  show ?case
  proof (cases "m = a")
    case True
    then show ?thesis using Cons.prems by simp
  next
    case False
    then have m: "m \<in> set ms" using Cons.prems by simp
    have d: "distinct (map key_of ms)" and a: "key_of a \<notin> key_of ` set ms"
      using Cons.prems by simp_all
    have sub: "set (remove1 m ms) \<subseteq> set ms" by (rule set_remove1_subset)
    have "key_of a \<notin> key_of ` set (remove1 m ms)" using a sub by blast
    moreover have "key_of m \<noteq> key_of a" using a m by (metis imageI)
    ultimately show ?thesis using Cons.IH [OF d m] False by simp
  qed
qed

text \<open>The store's invariant, one measurement for a key, is kept by every upsert.\<close>

lemma distinct_upsert:
  assumes "distinct (map key_of ms)"
  shows "distinct (map key_of (upsert ms x y ssid v))"
proof (cases "existing_measurement ms x y ssid")
  case None
  then have "(x, y, ssid) \<notin> key_of ` set ms" by (simp add: existing_measurement_None)
  then show ?thesis using None assms by (simp add: upsert_def)
next
  case (Some m)
  then have m: "m \<in> set ms" "key_of m = (x, y, ssid)"
    using existing_measurement_Some by blast+
  show ?thesis
    using Some assms distinct_keys_remove1 [OF assms m(1)] m(2) by (simp add: upsert_def)
qed

lemma distinct_update_measurements:
  "distinct (map key_of ms) \<Longrightarrow> distinct (map key_of (update_measurements ms x y averaged))"
  unfolding update_measurements_def
  by (induction averaged arbitrary: ms) (auto simp: distinct_upsert)

lemma perform_scan_distinct:
  assumes "distinct (map key_of (measurements st))" and "perform_scan st results x y = Inr st'"
  shows "distinct (map key_of (measurements st'))"
  using assms
  by (auto simp: perform_scan_def distinct_update_measurements split: if_splits sum.splits)

lemma stored_upsert:
  assumes "distinct (map key_of ms)"
  shows "stored (upsert ms x y ssid v) x y ssid =
           (case stored ms x y ssid of
              None \<Rightarrow> Some v
            | Some old \<Rightarrow> if old < v then Some v else Some old)"
proof (cases "existing_measurement ms x y ssid")
  case None
  have "(x, y, ssid, v) \<in> set (upsert ms x y ssid v)"
    using None by (simp add: upsert_def)
  then have "existing_measurement (upsert ms x y ssid v) x y ssid = Some (x, y, ssid, v)"
    using existing_measurement_unique [OF distinct_upsert [OF assms]] by simp
  then show ?thesis using None by (simp add: stored_def)
next
  case (Some m)
  show ?thesis
  proof (cases "strength_of m < v")
    case True
    then have "(x, y, ssid, v) \<in> set (upsert ms x y ssid v)"
      using Some by (simp add: upsert_def)
    then have "existing_measurement (upsert ms x y ssid v) x y ssid = Some (x, y, ssid, v)"
      using existing_measurement_unique [OF distinct_upsert [OF assms]] by simp
    then show ?thesis using Some True by (simp add: stored_def)
  next
    case False
    then show ?thesis using Some by (simp add: stored_def upsert_def)
  qed
qed

lemma stored_unique:
  "distinct (map key_of ms) \<Longrightarrow> m \<in> set ms \<Longrightarrow> key_of m = (x, y, ssid) \<Longrightarrow>
   stored ms x y ssid = Some (strength_of m)"
  by (simp add: stored_def existing_measurement_unique)

text \<open>
  Claim C2. In a store that holds one measurement for a key at most (the empty store
  does, and every upsert keeps it so), an upsert of \<open>(x, y, ssid, v)\<close> replaces the stored
  value of that key exactly when \<open>v\<close> is strictly greater, and inserts \<open>v\<close> when the key has
  no measurement. After \<open>upsert(10,10,"A",-50)\<close> and \<open>upsert(10,10,"A",-60)\<close> the
  stored value is \<open>-50\<close>; a further \<open>upsert(10,10,"A",-40)\<close> makes it \<open>-40\<close>.
\<close>

theorem upsert_replaces_iff_stronger:
  assumes "distinct (map key_of ms)"
  shows "stored (upsert ms x y ssid v) x y ssid =
           (case stored ms x y ssid of
              None \<Rightarrow> Some v
            | Some old \<Rightarrow> if old < v then Some v else Some old) \<and>
         distinct (map key_of (upsert ms x y ssid v)) \<and>
         stored (upsert (upsert [] 10 10 ''A'' (- 50)) 10 10 ''A'' (- 60)) 10 10 ''A''
           = Some (- 50) \<and>
         stored (upsert (upsert (upsert [] 10 10 ''A'' (- 50)) 10 10 ''A'' (- 60))
                   10 10 ''A'' (- 40)) 10 10 ''A''
           = Some (- 40)"
proof -
  have "stored (upsert (upsert [] 10 10 ''A'' (- 50)) 10 10 ''A'' (- 60)) 10 10 ''A''
          = Some (- 50)"
    by (simp add: stored_def upsert_def existing_measurement_def)
  moreover have
    "stored (upsert (upsert (upsert [] 10 10 ''A'' (- 50)) 10 10 ''A'' (- 60))
               10 10 ''A'' (- 40)) 10 10 ''A''
       = Some (- 40)"
    by (simp add: stored_def upsert_def existing_measurement_def)
  ultimately show ?thesis
    using stored_upsert [OF assms] distinct_upsert [OF assms] by simp
qed

theorem upsert_replaces_iff_stronger_witness:
  "distinct (map key_of [(10, 10, ''A'', - 50), (20, 10, ''A'', - 70)]) \<and>
   stored (upsert [(10, 10, ''A'', - 50), (20, 10, ''A'', - 70)] 20 10 ''A'' (- 65))
     20 10 ''A'' = Some (- 65) \<and>
   stored (upsert [(10, 10, ''A'', - 50), (20, 10, ''A'', - 70)] 10 10 ''A'' (- 65))
     10 10 ''A'' = Some (- 50) \<and>
   stored (upsert [(10, 10, ''A'', - 50), (20, 10, ''A'', - 70)] 10 10 ''B'' (- 65))
     10 10 ''B'' = Some (- 65)"
proof -
  have d: "distinct (map key_of [(10, 10, ''A'', - 50), (20, 10, ''A'', - 70)])"
    by simp
  show ?thesis
    using d upsert_replaces_iff_stronger [OF d, of 20 10 "''A''" "- 65"]
      upsert_replaces_iff_stronger [OF d, of 10 10 "''A''" "- 65"]
      upsert_replaces_iff_stronger [OF d, of 10 10 "''B''" "- 65"]
    by (simp add: stored_def existing_measurement_def)
qed

text \<open>
  Claim C10. An upsert of \<open>(x, y, ssid, v)\<close> leaves every measurement of another key as
  it is, in the same order. When the measurement that the store finds for the key has a
  value of \<open>v\<close> or more, the whole store is unchanged; in a store with one measurement for a
  key that is any measurement of the key. The set of stored keys never shrinks.
\<close>

theorem upsert_frame:
  "filter (\<lambda>m. key_of m \<noteq> (x, y, ssid)) (upsert ms x y ssid v) =
     filter (\<lambda>m. key_of m \<noteq> (x, y, ssid)) ms \<and>
   (\<forall>old. stored ms x y ssid = Some old \<and> v \<le> old \<longrightarrow> upsert ms x y ssid v = ms) \<and>
   (\<forall>m. distinct (map key_of ms) \<and> m \<in> set ms \<and> key_of m = (x, y, ssid) \<and>
        v \<le> strength_of m \<longrightarrow> upsert ms x y ssid v = ms) \<and>
   key_of ` set ms \<subseteq> key_of ` set (upsert ms x y ssid v)"
proof -
  have "upsert ms x y ssid v = ms"
    if "distinct (map key_of ms)" "m \<in> set ms" "key_of m = (x, y, ssid)" "v \<le> strength_of m"
    for m
    using upsert_rejected [OF stored_unique [OF that(1-3)] that(4)] .
  then show ?thesis
    using upsert_other_keys [of x y ssid ms v] upsert_rejected [of ms x y ssid _ v]
      keys_upsert [of ms x y ssid v]
    by blast
qed

theorem upsert_frame_witness:
  "stored [(10, 10, ''A'', - 50), (20, 10, ''A'', - 70)] 10 10 ''A'' = Some (- 50) \<and>
   (- 60 :: real) \<le> - 50 \<and>
   distinct (map key_of [(10, 10, ''A'', - 50), (20, 10, ''A'', - 70)]) \<and>
   (10, 10, ''A'', - 50) \<in> set [(10, 10, ''A'', - 50), (20, 10, ''A'', - 70 :: real)] \<and>
   upsert [(10, 10, ''A'', - 50), (20, 10, ''A'', - 70)] 10 10 ''A'' (- 60) =
     [(10, 10, ''A'', - 50), (20, 10, ''A'', - 70)] \<and>
   filter (\<lambda>m. key_of m \<noteq> (10, 10, ''A''))
     (upsert [(10, 10, ''A'', - 50), (20, 10, ''A'', - 70)] 10 10 ''A'' (- 60)) =
     [(20, 10, ''A'', - 70)]"
proof -
  have s: "stored [(10, 10, ''A'', - 50), (20, 10, ''A'', - 70)] 10 10 ''A'' = Some (- 50)"
    by (simp add: stored_def existing_measurement_def)
  show ?thesis
    using s upsert_frame [of 10 10 "''A''" "[(10, 10, ''A'', - 50), (20, 10, ''A'', - 70)]" "- 60"]
    by simp
qed

section \<open>The samples of one network\<close>

lemma finite_strengths_at: "finite (strengths_at ms x y ssid)"
proof -
  have "strengths_at ms x y ssid = (\<lambda>v. (x, y, ssid, v)) -` set ms"
    by (auto simp: strengths_at_def)
  moreover have "inj (\<lambda>v::real. (x, y, ssid, v))" by (simp add: inj_def)
  ultimately show ?thesis by (simp add: finite_vimageI)
qed

lemma strengths_at_Cons:
  "strengths_at (m # ms) x y ssid =
     (if key_of m = (x, y, ssid) then insert (strength_of m) (strengths_at ms x y ssid)
      else strengths_at ms x y ssid)"
  by (cases m) (auto simp: strengths_at_def key_of_def strength_of_def)

lemma strengths_at_Nil: "strengths_at [] x y ssid = {}"
  by (simp add: strengths_at_def)

lemma map_of_filter_step:
  "map_of (filter_step ssid m fm) k =
     (if key_of m = (fst k, snd k, ssid) then
        (case map_of fm k of
           None \<Rightarrow> Some (strength_of m)
         | Some old \<Rightarrow> Some (max old (strength_of m)))
      else map_of fm k)"
  by (cases m; cases k)
     (auto simp: filter_step_def key_of_def strength_of_def update_conv' max_def
       split: option.splits)

lemma distinct_filter_step:
  "distinct (map fst fm) \<Longrightarrow> distinct (map fst (filter_step ssid m fm))"
  by (cases m) (auto simp: filter_step_def distinct_update split: option.splits)

lemma distinct_fold_filter_step:
  "distinct (map fst fm) \<Longrightarrow> distinct (map fst (fold (filter_step ssid) ms fm))"
  by (induction ms arbitrary: fm) (simp_all add: distinct_filter_step)

lemma Max_insert_max:
  "finite S \<Longrightarrow> Max (insert (max a v) S) = Max (insert a (insert v S))"
  by (cases "S = {}") (simp_all add: max.assoc)

text \<open>
  What the loop leaves at a location, from any dictionary it starts with: the maximum of
  the value already there and the strengths the list holds for the network there.
\<close>

lemma map_of_fold_filter_step:
  "map_of (fold (filter_step ssid) ms fm) (x, y) =
     (case map_of fm (x, y) of
        None \<Rightarrow> if strengths_at ms x y ssid = {} then None
                else Some (Max (strengths_at ms x y ssid))
      | Some a \<Rightarrow> Some (Max (insert a (strengths_at ms x y ssid))))"
proof (induction ms arbitrary: fm)
  case Nil
  then show ?case by (simp add: strengths_at_Nil split: option.splits)
next
  case (Cons m ms)
  let ?S = "strengths_at ms x y ssid"
  show ?case
  proof (cases "key_of m = (x, y, ssid)")
    case False
    then have S: "strengths_at (m # ms) x y ssid = ?S"
      by (simp add: strengths_at_Cons)
    have "map_of (filter_step ssid m fm) (x, y) = map_of fm (x, y)"
      using False by (simp add: map_of_filter_step)
    then show ?thesis unfolding S by (simp add: Cons.IH)
  next
    case True
    then have S: "strengths_at (m # ms) x y ssid = insert (strength_of m) ?S"
      by (simp add: strengths_at_Cons)
    have ne: "insert (strength_of m) ?S \<noteq> {}" by simp
    show ?thesis
    proof (cases "map_of fm (x, y)")
      case None
      then have "map_of (filter_step ssid m fm) (x, y) = Some (strength_of m)"
        using True by (simp add: map_of_filter_step)
      then show ?thesis unfolding S using None ne by (simp add: Cons.IH)
    next
      case (Some a)
      then have "map_of (filter_step ssid m fm) (x, y) = Some (max a (strength_of m))"
        using True by (simp add: map_of_filter_step)
      then show ?thesis unfolding S using Some
        by (simp add: Cons.IH Max_insert_max [OF finite_strengths_at])
    qed
  qed
qed

text \<open>
  Claim C8. For every measurement list and every network name, the dictionary
  \<^verbatim>\<open>filtered_measurements\<close> has one entry for a location (its keys are distinct), a
  location has an entry exactly when the list holds a measurement of the network there,
  and the entry is the greatest strength among those measurements.
\<close>

theorem filtered_measurements_keeps_maximum:
  "distinct (map fst (filtered_measurements ms ssid)) \<and>
   map_of (filtered_measurements ms ssid) (x, y) =
     (if strengths_at ms x y ssid = {} then None
      else Some (Max (strengths_at ms x y ssid)))"
  by (simp add: filtered_measurements_def distinct_fold_filter_step map_of_fold_filter_step)

section \<open>Calibration\<close>

lemma pixel_distance_same [simp]: "pixel_distance p p = 0"
  by (simp add: pixel_distance_def)


lemma calculate_two_points:
  "calibration_points st = [p1, p2] \<Longrightarrow>
   calculate_pixels_per_meter st d =
     st\<lparr>pixels_per_meter := Some (np_divide (pixel_distance p1 p2) d)\<rparr>"
  by (simp add: calculate_pixels_per_meter_def)



text \<open>
  Claim C3, as stated, fails: two clicks on the pixel \<open>(5, 5)\<close> and a confirmed distance
  of 10 metres complete the calibration; no error is raised and the scale stored is 0,
  which is not positive.
\<close>

theorem calibration_identical_points_counterexample:
  "handle_calibration_click
     (handle_calibration_click (start_calibration init_state) 5 5 (10, True)) 5 5 (10, True)
   = init_state\<lparr>enabled_scans := True, calibration_points := [(5, 5), (5, 5)],
       pixels_per_meter := Some (Finite 0)\<rparr> \<and>
   pixels_per_meter
     (calculate_pixels_per_meter (init_state\<lparr>calibration_points := [(5, 5), (5, 5)]\<rparr>) 10)
     = Some (Finite 0)"
  by (simp add: handle_calibration_click_def start_calibration_def init_state_def Let_def
      calculate_pixels_per_meter_def np_divide_def)

text \<open>
  Claim C3, amended. Calibrating with two identical points and a distance other than 0
  (the dialog gives one between 0.1 and 1000) does not fail: the scale is set to exactly
  0, a finite number, neither an infinity nor NaN, and not positive. Nothing else of the
  state changes.
\<close>

theorem calculate_identical_points_zero:
  assumes "calibration_points st = [p, p]" and "d \<noteq> 0"
  shows "calculate_pixels_per_meter st d = st\<lparr>pixels_per_meter := Some (Finite 0)\<rparr>"
  using assms by (simp add: calculate_two_points np_divide_def)

theorem calculate_identical_points_zero_witness:
  "calibration_points (init_state\<lparr>calibration_points := [(7, 3), (7, 3)]\<rparr>) = [(7, 3), (7, 3)] \<and>
   (1 / 10 :: real) \<noteq> 0 \<and>
   pixels_per_meter
     (calculate_pixels_per_meter (init_state\<lparr>calibration_points := [(7, 3), (7, 3)]\<rparr>) (1 / 10))
     = Some (Finite 0)"
  using calculate_identical_points_zero
    [of "init_state\<lparr>calibration_points := [(7, 3), (7, 3)]\<rparr>" "(7, 3)" "1 / 10"]
  by simp

text \<open>
  Claim C9, as stated, fails: after two clicks whose distance dialog was cancelled, a
  third click is accepted and the point list has three points.
\<close>

theorem third_calibration_click_counterexample:
  "handle_calibration_click
     (handle_calibration_click
        (handle_calibration_click (start_calibration init_state) 1 1 (10, True))
        2 2 (10, False))
     3 3 (10, True)
   = init_state\<lparr>is_calibrating := True, calibration_points := [(1, 1), (2, 2), (3, 3)]\<rparr>"
  by (simp add: handle_calibration_click_def start_calibration_def init_state_def Let_def)

text \<open>
  Claim C9, amended. A click on the map while two calibration points are recorded is
  not an error: the click is appended to the point list, which then has three points, no
  distance is asked for and nothing else of the state changes (no scale is set, and the
  state stays in calibration if it was).
\<close>

theorem third_calibration_click_appends:
  assumes "length (calibration_points st) = 2"
  shows "handle_calibration_click st x y dialog =
           st\<lparr>calibration_points := calibration_points st @ [(x, y)]\<rparr>"
  using assms by (simp add: handle_calibration_click_def Let_def)

theorem third_calibration_click_appends_witness:
  "length (calibration_points
             (init_state\<lparr>is_calibrating := True, calibration_points := [(1, 1), (2, 2)]\<rparr>)) = 2 \<and>
   handle_calibration_click
     (init_state\<lparr>is_calibrating := True, calibration_points := [(1, 1), (2, 2)]\<rparr>) 3 3 (10, True)
   = init_state\<lparr>is_calibrating := True, calibration_points := [(1, 1), (2, 2), (3, 3)]\<rparr>"
  using third_calibration_click_appends
    [of "init_state\<lparr>is_calibrating := True, calibration_points := [(1, 1), (2, 2)]\<rparr>"
        3 3 "(10, True)"]
  by simp

section \<open>Rounding to doubles\<close>

lemma round_half_even_of_int [simp]: "round_half_even (of_int k) = k"
  by (simp add: round_half_even_def)

lemma round_half_even_bounds: "\<lfloor>x\<rfloor> \<le> round_half_even x \<and> round_half_even x \<le> \<lfloor>x\<rfloor> + 1"
  by (simp add: round_half_even_def Let_def)

lemma round_half_even_mono:
  assumes "a \<le> b"
  shows "round_half_even a \<le> round_half_even b"
proof (cases "\<lfloor>a\<rfloor> = \<lfloor>b\<rfloor>")
  case True
  then show ?thesis using assms by (auto simp: round_half_even_def Let_def)
next
  case False
  have "\<lfloor>a\<rfloor> \<le> \<lfloor>b\<rfloor>" using assms by (rule floor_mono)
  then have "\<lfloor>a\<rfloor> + 1 \<le> \<lfloor>b\<rfloor>" using False by simp
  then show ?thesis
    using round_half_even_bounds [of a] round_half_even_bounds [of b] by linarith
qed

lemma floor_log2_eqI:
  assumes "0 < x" "2 powr (of_int e) \<le> x" "x < 2 powr (of_int e + 1)"
  shows "\<lfloor>log 2 x\<rfloor> = e"
proof (rule floor_unique)
  show "of_int e \<le> log 2 x"
    using assms(1,2) by (simp add: le_log_iff)
  show "log 2 x < of_int e + 1"
    using assms(1,3) by (simp add: log_less_iff)
qed

lemma floor_log2_bounds:
  assumes "0 < x"
  shows "2 powr (of_int \<lfloor>log 2 x\<rfloor>) \<le> x \<and> x < 2 powr (of_int \<lfloor>log 2 x\<rfloor> + 1)"
proof -
  have l: "of_int \<lfloor>log 2 x\<rfloor> \<le> log 2 x" by simp
  have "(of_int \<lfloor>log 2 x\<rfloor> \<le> log 2 x) = (2 powr (of_int \<lfloor>log 2 x\<rfloor>) \<le> x)"
    by (rule le_log_iff) (simp_all add: assms)
  then have a: "2 powr (of_int \<lfloor>log 2 x\<rfloor>) \<le> x" using l by blast
  have u: "log 2 x < of_int \<lfloor>log 2 x\<rfloor> + 1" by linarith
  have "(log 2 x < of_int \<lfloor>log 2 x\<rfloor> + 1) = (x < 2 powr (of_int \<lfloor>log 2 x\<rfloor> + 1))"
    by (rule log_less_iff) (simp_all add: assms)
  then have "x < 2 powr (of_int \<lfloor>log 2 x\<rfloor> + 1)" using u by blast
  then show ?thesis using a by simp
qed

lemma fl_eqI:
  assumes "0 < x" "2 powr (of_int e) \<le> x" "x < 2 powr (of_int e + 1)"
  shows "fl x = of_int (round_half_even (x / 2 powr (of_int e - 52))) * 2 powr (of_int e - 52)"
proof -
  have "\<lfloor>log 2 \<bar>x\<bar>\<rfloor> = e" using floor_log2_eqI [OF assms] assms(1) by simp
  then show ?thesis using assms(1) by (simp add: fl_def Let_def)
qed

lemma real_of_int_pow2_le: "2 ^ n \<le> k \<Longrightarrow> (2 ^ n :: real) \<le> of_int k"
proof -
  assume "2 ^ n \<le> k"
  then have "(of_int (2 ^ n) :: real) \<le> of_int k" by (simp only: of_int_le_iff)
  then show ?thesis by simp
qed

lemma real_of_int_le_pow2: "k \<le> 2 ^ n \<Longrightarrow> of_int k \<le> (2 ^ n :: real)"
proof -
  assume "k \<le> 2 ^ n"
  then have "(of_int k :: real) \<le> of_int (2 ^ n)" by (simp only: of_int_le_iff)
  then show ?thesis by simp
qed

lemma real_of_int_less_pow2: "k < 2 ^ n \<Longrightarrow> of_int k < (2 ^ n :: real)"
proof -
  assume "k < 2 ^ n"
  then have "(of_int k :: real) < of_int (2 ^ n)" by (simp only: of_int_less_iff)
  then show ?thesis by simp
qed

lemma mantissa_range:
  assumes "2 powr (of_int e) \<le> (x::real)" "x < 2 powr (of_int e + 1)"
  shows "2 ^ 52 \<le> x / 2 powr (of_int e - 52) \<and> x / 2 powr (of_int e - 52) < 2 ^ 53"
proof -
  let ?u = "2 powr (of_int e - 52) :: real"
  have u: "0 < ?u" by simp
  have a: "2 powr (of_int e) = 2 ^ 52 * ?u"
    by (simp add: powr_diff)
  have b: "2 powr (of_int e + 1) = 2 ^ 53 * ?u"
    by (simp add: powr_diff powr_add)
  have "2 ^ 52 * ?u \<le> x" using assms(1) a by simp
  then have l: "2 ^ 52 \<le> x / ?u" using u by (simp add: pos_le_divide_eq)
  have "x < 2 ^ 53 * ?u" using assms(2) b by simp
  then have "x / ?u < 2 ^ 53" using u by (simp add: pos_divide_less_eq)
  then show ?thesis using l by simp
qed

lemma round_mantissa_range:
  assumes "2 powr (of_int e) \<le> x" "x < 2 powr (of_int e + 1)"
  shows "2 ^ 52 \<le> round_half_even (x / 2 powr (of_int e - 52)) \<and>
         round_half_even (x / 2 powr (of_int e - 52)) \<le> 2 ^ 53"
proof -
  let ?m = "x / 2 powr (of_int e - 52)"
  have m: "2 ^ 52 \<le> ?m" "?m < 2 ^ 53" using mantissa_range [OF assms] by simp_all
  have "round_half_even (of_int (2 ^ 52)) \<le> round_half_even ?m"
    using m(1) by (intro round_half_even_mono) simp
  then have l: "2 ^ 52 \<le> round_half_even ?m" by (simp only: round_half_even_of_int)
  have "round_half_even ?m \<le> round_half_even (of_int (2 ^ 53))"
    using m(2) by (intro round_half_even_mono) simp
  then have "round_half_even ?m \<le> 2 ^ 53" by (simp only: round_half_even_of_int)
  then show ?thesis using l by simp
qed

lemma fl_range:
  assumes "0 < x" "2 powr (of_int e) \<le> x" "x < 2 powr (of_int e + 1)"
  shows "2 powr (of_int e) \<le> fl x \<and> fl x \<le> 2 powr (of_int e + 1)"
proof -
  let ?u = "2 powr (of_int e - 52) :: real"
  let ?k = "round_half_even (x / ?u)"
  have u: "0 < ?u" by simp
  have k: "2 ^ 52 \<le> ?k" "?k \<le> 2 ^ 53" using round_mantissa_range [OF assms(2,3)] by simp_all
  have a: "2 powr (of_int e) = 2 ^ 52 * ?u" by (simp add: powr_diff)
  have b: "2 powr (of_int e + 1) = 2 ^ 53 * ?u" by (simp add: powr_diff powr_add)
  have f: "fl x = of_int ?k * ?u" by (rule fl_eqI [OF assms])
  have "(2 ^ 52 :: real) \<le> of_int ?k" using k(1) by (rule real_of_int_pow2_le)
  then have l: "2 ^ 52 * ?u \<le> of_int ?k * ?u" using u by (simp only: mult_le_cancel_right_pos)
  have "of_int ?k \<le> (2 ^ 53 :: real)" using k(2) by (rule real_of_int_le_pow2)
  then have "of_int ?k * ?u \<le> 2 ^ 53 * ?u" using u by (simp only: mult_le_cancel_right_pos)
  then show ?thesis using l a b f by simp
qed

lemma fl_pos: "0 < x \<Longrightarrow> 0 < fl x"
proof -
  assume x: "0 < x"
  have "2 powr (of_int \<lfloor>log 2 x\<rfloor>) \<le> fl x"
    using fl_range [OF x] floor_log2_bounds [OF x] by blast
  moreover have "(0::real) < 2 powr (of_int \<lfloor>log 2 x\<rfloor>)" by simp
  ultimately show ?thesis by linarith
qed

lemma fl_zero [simp]: "fl 0 = 0"
  by (simp add: fl_def)


lemma fl_exact:
  assumes "2 ^ 52 \<le> k" "k < 2 ^ 53"
  shows "fl (of_int k * 2 powr (of_int e - 52)) = of_int k * 2 powr (of_int e - 52)"
proof -
  let ?u = "2 powr (of_int e - 52) :: real"
  let ?x = "of_int k * ?u"
  have u: "0 < ?u" by simp
  have "(0::int) < 2 ^ 52" by simp
  then have "0 < k" using assms(1) by linarith
  then have kp: "(0::real) < of_int k" by simp
  have x: "0 < ?x" using kp u by simp
  have a: "2 powr (of_int e) = 2 ^ 52 * ?u" by (simp add: powr_diff)
  have b: "2 powr (of_int e + 1) = 2 ^ 53 * ?u" by (simp add: powr_diff powr_add)
  have "(2 ^ 52 :: real) \<le> of_int k" using assms(1) by (rule real_of_int_pow2_le)
  then have "2 ^ 52 * ?u \<le> ?x" using u by (simp only: mult_le_cancel_right_pos)
  then have l: "2 powr (of_int e) \<le> ?x" using a by simp
  have "of_int k < (2 ^ 53 :: real)" using assms(2) by (rule real_of_int_less_pow2)
  then have "?x < 2 ^ 53 * ?u" using u by (simp only: mult_less_cancel_right_pos)
  then have r: "?x < 2 powr (of_int e + 1)" using b by simp
  have "?x / ?u = of_int k" using u by simp
  then show ?thesis using fl_eqI [OF x l r] by simp
qed

lemma fl_idem:
  assumes "0 < x"
  shows "fl (fl x) = fl x"
proof -
  let ?e = "\<lfloor>log 2 x\<rfloor>"
  let ?u = "2 powr (of_int ?e - 52) :: real"
  let ?k = "round_half_even (x / ?u)"
  have b: "2 powr (of_int ?e) \<le> x" "x < 2 powr (of_int ?e + 1)"
    using floor_log2_bounds [OF assms] by simp_all
  have f: "fl x = of_int ?k * ?u" by (rule fl_eqI [OF assms b])
  have k: "2 ^ 52 \<le> ?k" "?k \<le> 2 ^ 53" using round_mantissa_range [OF b] by simp_all
  show ?thesis
  proof (cases "?k = 2 ^ 53")
    case False
    then have "?k < 2 ^ 53" using k(2) by simp
    then show ?thesis using fl_exact [OF k(1), of ?e] f by simp
  next
    case True
    have "of_int ?k * ?u = of_int (2 ^ 52) * 2 powr (of_int (?e + 1) - 52)"
      unfolding True by (simp add: powr_diff powr_add)
    moreover have "fl (of_int (2 ^ 52) * 2 powr (of_int (?e + 1) - 52)) =
        of_int (2 ^ 52) * 2 powr (of_int (?e + 1) - 52)"
      by (rule fl_exact) simp_all
    ultimately show ?thesis using f by simp
  qed
qed



lemma fl_of_int:
  assumes "0 < n" "n < 2 ^ 53"
  shows "fl (of_int n) = of_int n"
proof -
  let ?x = "of_int n :: real"
  let ?e = "\<lfloor>log 2 ?x\<rfloor>"
  have x: "0 < ?x" using assms(1) by simp
  have b: "2 powr (of_int ?e) \<le> ?x" "?x < 2 powr (of_int ?e + 1)"
    using floor_log2_bounds [OF x] by simp_all
  have "1 \<le> ?x" using assms(1) by simp
  then have "0 \<le> log 2 ?x" by simp
  then have e0: "0 \<le> ?e" by simp
  have "?x < 2 ^ 53" using assms(2) by (rule real_of_int_less_pow2)
  moreover have "(2::real) powr 53 = 2 ^ 53" by simp
  ultimately have "(2::real) powr (of_int ?e) < 2 powr 53" using b(1) by linarith
  then have "(of_int ?e :: real) < 53" by (rule powr_less_cancel) simp
  then have e52: "?e \<le> 52" by linarith
  define d where "d = nat (52 - ?e)"
  have d: "(of_int ?e :: real) - 52 = - real d" using e52 by (simp add: d_def)
  have u: "(2::real) powr (of_int ?e - 52) = 1 / 2 ^ d"
    unfolding d by (simp add: powr_minus powr_realpow inverse_eq_divide)
  have "?x / 2 powr (of_int ?e - 52) = of_int (n * 2 ^ d)"
    unfolding u by simp
  then have "round_half_even (?x / 2 powr (of_int ?e - 52)) = n * 2 ^ d"
    by (simp only: round_half_even_of_int)
  then have "fl ?x = of_int (n * 2 ^ d) * (1 / 2 ^ d)"
    using fl_eqI [OF x b] u by simp
  then show ?thesis by simp
qed


lemma fl_numeral: "(numeral n :: int) < 2 ^ 53 \<Longrightarrow> fl (numeral n) = numeral n"
  using fl_of_int [of "numeral n"] by simp

section \<open>The interpolation grid and the field\<close>

lemma np_arange_from_zero:
  assumes "0 < s" "fl s = s"
  shows "np_arange 0 stop s = Inr (map (\<lambda>i. fl (real i * s)) [0..<nat \<lceil>fl (stop / s)\<rceil>])"
proof -
  have "(if i = 0 then 0 else if i = 1 then fl (0 + s)
         else fl (0 + fl (real i * fl (fl (0 + s) - 0))))
        = fl (real i * s)" for i :: nat
  proof -
    have "fl (fl (real i * s)) = fl (real i * s)" if "i \<noteq> 0"
      using that assms(1) by (intro fl_idem) simp
    then show ?thesis using assms(2) by simp
  qed
  then have eq:
    "(\<lambda>i::nat. if i = 0 then 0 else if i = 1 then fl (0 + s)
         else fl (0 + fl (real i * fl (fl (0 + s) - 0)))) = (\<lambda>i. fl (real i * s))"
    by (intro ext)
  have "s \<noteq> 0" using assms(1) by simp
  then show ?thesis
    unfolding np_arange_def Let_def eq by simp
qed

lemma grid_step_pos: "0 < radius \<Longrightarrow> 0 < ppm \<Longrightarrow> 0 < grid_step radius ppm"
  by (simp add: grid_step_def fl_pos)

lemma grid_step_double: "0 < radius \<Longrightarrow> 0 < ppm \<Longrightarrow> fl (grid_step radius ppm) = grid_step radius ppm"
  by (simp add: grid_step_def fl_idem)



lemma interpolation_grid_pos:
  assumes "0 < radius" "0 < ppm"
  shows "interpolation_grid radius ppm width height =
           Inr (np_meshgrid
                  (map (\<lambda>i. fl (real i * grid_step radius ppm))
                     [0..<nat \<lceil>fl (real_of_int width / grid_step radius ppm)\<rceil>])
                  (map (\<lambda>i. fl (real i * grid_step radius ppm))
                     [0..<nat \<lceil>fl (real_of_int height / grid_step radius ppm)\<rceil>]))"
  using assms
  by (simp add: interpolation_grid_def np_arange_from_zero grid_step_pos grid_step_double)












lemma grid_step_5_10: "grid_step 5 10 = 50"
  by (simp add: grid_step_def fl_numeral)







lemma interpolation_grid_shape:
  assumes "interpolation_grid radius ppm width height = Inr (X, Y)"
  shows "length Y = length X \<and> (\<forall>i<length X. length (Y ! i) = length (X ! i))"
proof -
  obtain xg yg where "np_meshgrid xg yg = (X, Y)"
    using assms by (auto simp: interpolation_grid_def split: sum.splits)
  then have "X = replicate (length yg) xg" "Y = map (\<lambda>y. replicate (length xg) y) yg"
    by (simp_all add: np_meshgrid_def)
  then show ?thesis by simp
qed

text \<open>
  Claim C7. When the grid is built and the interpolant is fitted, the field is produced,
  has the shape of the grid, and its value at every lattice point is exactly the negation
  of the value of the interpolant there.
\<close>

theorem heatmap_field_negated:
  assumes g: "interpolation_grid radius ppm width height = Inr (X, Y)"
      and f: "Rbf x_coords y_coords strengths (grid_step radius ppm) = Inr rbf"
  shows "\<exists>Z. heatmap_field Rbf radius ppm width height x_coords y_coords strengths = Inr Z \<and>
           length Z = length X \<and>
           (\<forall>i<length X. length (Z ! i) = length (X ! i) \<and>
              (\<forall>j<length (X ! i). Z ! i ! j = - rbf (X ! i ! j) (Y ! i ! j)))"
proof -
  let ?Z = "map (map uminus) (map2 (map2 rbf) X Y)"
  have sh: "length Y = length X" "\<And>i. i < length X \<Longrightarrow> length (Y ! i) = length (X ! i)"
    using interpolation_grid_shape [OF g] by simp_all
  have e: "heatmap_field Rbf radius ppm width height x_coords y_coords strengths = Inr ?Z"
    by (simp add: heatmap_field_def g f)
  have l: "length ?Z = length X" using sh(1) by simp
  have rows: "\<forall>i<length X. length (?Z ! i) = length (X ! i) \<and>
              (\<forall>j<length (X ! i). ?Z ! i ! j = - rbf (X ! i ! j) (Y ! i ! j))"
  proof (intro allI impI)
    fix i assume i: "i < length X"
    then have Zi: "?Z ! i = map uminus (map2 rbf (X ! i) (Y ! i))"
      using sh(1) by simp
    show "length (?Z ! i) = length (X ! i) \<and>
              (\<forall>j<length (X ! i). ?Z ! i ! j = - rbf (X ! i ! j) (Y ! i ! j))"
      unfolding Zi using sh(2) [OF i] by simp
  qed
  show ?thesis
    by (rule exI [of _ ?Z]) (rule conjI e l rows)+
qed

lemma grid_100_100:
  "interpolation_grid 5 10 100 100 = Inr ([[0, 50], [0, 50]], [[0, 0], [50, 50]])"
  using interpolation_grid_pos [of 5 10 100 100]
  by (simp add: grid_step_5_10 fl_numeral np_meshgrid_def upt_rec numeral_2_eq_2)

theorem heatmap_field_negated_witness:
  "interpolation_grid 5 10 100 100 = Inr ([[0, 50], [0, 50]], [[0, 0], [50, 50]]) \<and>
   (\<lambda>xs ys ss eps. Inr (\<lambda>x y. x + 2 * y - 70)) [10 :: real] [20 :: real] [- 40 :: real]
      (grid_step 5 10)
      = (Inr (\<lambda>x y. x + 2 * y - 70) :: error + (real \<Rightarrow> real \<Rightarrow> real)) \<and>
   (\<exists>Z. heatmap_field (\<lambda>xs ys ss eps. Inr (\<lambda>x y. x + 2 * y - 70)) 5 10 100 100 [10] [20] [- 40]
           = Inr Z \<and> length Z = 2 \<and> Z ! 1 ! 1 = - 80)"
proof -
  let ?X = "[[0, 50], [0, 50 :: real]]" and ?Y = "[[0, 0], [50, 50 :: real]]"
  let ?Rbf = "\<lambda>(xs :: real list) (ys :: real list) (ss :: real list) (eps :: real).
                (Inr (\<lambda>x y. x + 2 * y - 70) :: error + (real \<Rightarrow> real \<Rightarrow> real))"
  have g: "interpolation_grid 5 10 100 100 = Inr (?X, ?Y)"
    by (rule grid_100_100)
  have f: "?Rbf [10] [20] [- 40] (grid_step 5 10) = Inr (\<lambda>x y. x + 2 * y - 70)" by simp
  obtain Z where Z: "heatmap_field ?Rbf 5 10 100 100 [10] [20] [- 40] = Inr Z"
     and l: "length Z = length ?X"
     and rows: "\<forall>i<length ?X. length (Z ! i) = length (?X ! i) \<and>
              (\<forall>j<length (?X ! i). Z ! i ! j = - (?X ! i ! j + 2 * (?Y ! i ! j) - 70))"
    using heatmap_field_negated [OF g f] by blast
  have "(1::nat) < length ?X" by simp
  then have "\<forall>j<length (?X ! 1). Z ! 1 ! j = - (?X ! 1 ! j + 2 * (?Y ! 1 ! j) - 70)"
    using rows by blast
  moreover have "(1::nat) < length (?X ! 1)" by simp
  ultimately have "Z ! 1 ! 1 = - (?X ! 1 ! 1 + 2 * (?Y ! 1 ! 1) - 70)" by blast
  then have "Z ! 1 ! 1 = - 80" by simp
  then show ?thesis using g Z l by simp
qed

section \<open>Scan aggregation\<close>

lemma dbm_to_watts_pos: "0 < dbm_to_watts s"
  by (simp add: dbm_to_watts_def)

lemma dbm_to_watts_mono: "a < b \<Longrightarrow> dbm_to_watts a < dbm_to_watts b"
  by (simp add: dbm_to_watts_def divide_strict_right_mono)

lemma average_dbm_single: "average_dbm [dbm_to_watts s] = Inr s"
  by (simp add: average_dbm_def py_log10_def dbm_to_watts_def)

lemma update_update_same: "AList.update k v (AList.update k w al) = AList.update k v al"
  by (induction al) auto

text \<open>
  While \<^verbatim>\<open>ssid_signals\<close> is empty the test \<^verbatim>\<open>not ssid in ssid_signals\<close> is true, so every
  reading overwrites the entry of its network.
\<close>

lemma scan_reading_empty:
  "scan_reading [] scan (ssid, s) = Inr (AList.update ssid [dbm_to_watts s] scan)"
  by (simp add: scan_reading_def Let_def update_update_same)

lemma scan_pass_empty:
  "scan_pass [] rs scan = Inr (fold (\<lambda>(ssid, s). AList.update ssid [dbm_to_watts s]) rs scan)"
  by (induction rs arbitrary: scan) (auto simp: scan_reading_empty)

text \<open>
  \<^verbatim>\<open>ssid_signals\<close> is empty before the loop and no pass changes it, so what the loop
  leaves in \<^verbatim>\<open>ssid_signals_scan\<close> is the dictionary of the pass that ran last.
\<close>

lemma scan_loop_empty:
  "scan_loop results (is @ [i]) ([], scan0) =
     Inr ([], fold (\<lambda>(ssid, s). AList.update ssid [dbm_to_watts s])
                (scan_access_points (results i)) [])"
  by (induction "is" arbitrary: scan0) (simp_all add: scan_pass_empty Let_def)

lemma aggregate_scans_last:
  "aggregate_scans results =
     averaged_signals
       (fold (\<lambda>(ssid, s). AList.update ssid [dbm_to_watts s])
          (scan_access_points (results 2)) [])"
proof -
  have "[0..<3] = [0, 1] @ [2::nat]" by (simp add: upt_rec)
  then show ?thesis
    by (simp only: aggregate_scans_def scan_loop_empty sum.case snd_conv)
qed

lemma aggregate_scans_third_pass_only:
  "results 2 = results' 2 \<Longrightarrow> aggregate_scans results = aggregate_scans results'"
  by (simp add: aggregate_scans_last)

lemma average_three_passes:
  "\<exists>v. average_dbm [dbm_to_watts (- 40), dbm_to_watts (- 50), dbm_to_watts (- 60)] = Inr v \<and>
       - 60 < v"
proof -
  define a where
    "a = (dbm_to_watts (- 40) + dbm_to_watts (- 50) + dbm_to_watts (- 60)) / 3 * 1000"
  have "dbm_to_watts (- 60) < dbm_to_watts (- 40)" "dbm_to_watts (- 60) < dbm_to_watts (- 50)"
    by (simp_all add: dbm_to_watts_mono)
  then have "dbm_to_watts (- 60) * 1000 < a" by (simp add: a_def)
  moreover have "dbm_to_watts (- 60) * 1000 = 10 powr (- 6)" by (simp add: dbm_to_watts_def)
  ultimately have lt: "10 powr (- 6) < a" by simp
  have p6: "(0::real) < 10 powr (- 6)" by simp
  then have pos: "0 < a" using lt by linarith
  have one: "(1::real) < 10" by simp
  have "log 10 (10 powr (- 6)) < log 10 a"
    using log_less_cancel_iff [OF one p6 pos] lt by blast
  then have "- 6 < log 10 a" by simp
  then have "- 60 < 10 * log 10 a" by simp
  moreover have
    "average_dbm [dbm_to_watts (- 40), dbm_to_watts (- 50), dbm_to_watts (- 60)] =
       Inr (10 * log 10 a)"
    using pos by (simp add: average_dbm_def py_log10_def a_def add.assoc)
  ultimately show ?thesis by blast
qed

text \<open>
  Claim C1 does not hold of the code. With the passes \<open>[A: -40, B: -70]\<close>, \<open>[A: -50]\<close> and
  \<open>[A: -60]\<close> the result is \<open>A: -60\<close> alone: the value of the third pass for \<open>A\<close>, and nothing
  for \<open>B\<close>, which the third pass did not see; that is what \<^verbatim>\<open>perform_scan\<close> stores at the
  location. The average over the three passes that the claim describes is greater than
  \<open>-60\<close> for \<open>A\<close>.
\<close>

theorem aggregate_scans_drops_earlier_passes:
  "aggregate_scans
     (\<lambda>i. if i = 0 then [(''A'', - 40), (''B'', - 70)]
          else if i = 1 then [(''A'', - 50)]
          else [(''A'', - 60)])
   = Inr [(''A'', - 60)] \<and>
   perform_scan (init_state\<lparr>interface := True\<rparr>)
     (\<lambda>i. if i = 0 then [(''A'', - 40), (''B'', - 70)]
          else if i = 1 then [(''A'', - 50)]
          else [(''A'', - 60)]) 10 10
   = Inr (init_state\<lparr>interface := True, measurements := [(10, 10, ''A'', - 60)],
            enabled_scans := True\<rparr>) \<and>
   (\<exists>v. average_dbm [dbm_to_watts (- 40), dbm_to_watts (- 50), dbm_to_watts (- 60)] = Inr v \<and>
        - 60 < v)"
  using average_three_passes
  by (simp add: perform_scan_def aggregate_scans_last scan_access_points_def average_dbm_single
      update_measurements_def upsert_def existing_measurement_def init_state_def)

text \<open>
  Claim C4 does not hold of the code. In \<^verbatim>\<open>perform_scan\<close> the dictionary \<^verbatim>\<open>ssid_signals\<close>
  is empty in every pass, and a pass that reads \<open>A\<close> at \<open>-40\<close> and then at \<open>-60\<close> keeps the
  later, weaker reading; three such passes give \<open>-60\<close> for \<open>A\<close>.
\<close>

theorem scan_pass_keeps_last_reading:
  "scan_pass [] (scan_access_points [(''A'', - 40), (''A'', - 60)]) [] =
     Inr [(''A'', [dbm_to_watts (- 60)])] \<and>
   dbm_to_watts (- 60) < dbm_to_watts (- 40) \<and>
   aggregate_scans (\<lambda>i. [(''A'', - 40), (''A'', - 60)]) = Inr [(''A'', - 60)]"
  by (simp add: aggregate_scans_last scan_pass_empty scan_access_points_def dbm_to_watts_mono
      average_dbm_single del: scan_pass.simps)

end
